theory Spec2Isabelle
  imports Main "HOL-Library.AList"
begin

section \<open>The session store of the signaling server\<close>

text \<open>
  The development embeds \<^verbatim>\<open>session-store.ts\<close> (class \<^verbatim>\<open>SessionStore\<close>), the
  \<^verbatim>\<open>/stats\<close> handlers of the two server entry points, and the create handler of
  \<^verbatim>\<open>ws-handler.ts\<close>.

  Conventions of the embedding:
  \<^item> A JavaScript \<^verbatim>\<open>Map\<close> is an association list in insertion order.
    \<^verbatim>\<open>m.get(k)\<close> is \<open>map_of m k\<close>, \<^verbatim>\<open>m.set(k, v)\<close> is \<open>AList.update k v m\<close>
    (an existing key keeps its position, a new key goes to the end),
    \<^verbatim>\<open>m.delete(k)\<close> is \<open>AList.delete k m\<close> and \<^verbatim>\<open>m.size\<close> is \<open>length m\<close>.
    The keys of a \<^verbatim>\<open>Map\<close> are pairwise distinct; \<open>wellFormed\<close> below says so.
  \<^item> \<^verbatim>\<open>Date.now()\<close> is a parameter of every function that reads the clock
    (milliseconds, an \<open>int\<close>: the source's numbers are doubles, which hold these integers
    and their sums with 3600000 exactly); the identifiers drawn by \<^verbatim>\<open>randomUUID()\<close> and
    \<^verbatim>\<open>randomBytes(32)\<close> are parameters of \<open>createSession\<close>.
  \<^item> A socket is a handle; \<^verbatim>\<open>socket.close()\<close> appends the handle to the
    trace \<open>closed\<close> kept next to the store (errors of \<^verbatim>\<open>close\<close> are caught and
    ignored by the source).
  \<^item> A method that mutates \<^verbatim>\<open>this\<close> returns the new store; a method that also
    returns a value returns the pair (value, store).
\<close>

subsection \<open>Data\<close>

type_synonym socket = nat

record ClientConnection =
  clientId :: string
  displayName :: string
  socket :: socket
  joinedAt :: int

record Session =
  sessionId :: string
  token :: string
  createdAt :: int
  expiresAt :: int
  clients :: "(string \<times> ClientConnection) list"

record SessionStore =
  sessions :: "(string \<times> Session) list"
  totalSessionsCreated :: nat
  closed :: "socket list"

definition emptyStore :: SessionStore where
  "emptyStore = \<lparr>sessions = [], totalSessionsCreated = 0, closed = []\<rparr>"

subsection \<open>Operations\<close>

definition createSession :: "string \<Rightarrow> string \<Rightarrow> int \<Rightarrow> SessionStore \<Rightarrow> Session \<times> SessionStore" where
  "createSession sid tok now st =
     (let session = \<lparr>sessionId = sid, token = tok, createdAt = now,
                     expiresAt = now + 60 * 60 * 1000, clients = []\<rparr>
      in (session,
          st\<lparr>sessions := AList.update sid session (sessions st),
             totalSessionsCreated := totalSessionsCreated st + 1\<rparr>))"

text \<open>The loop of \<^verbatim>\<open>deleteSession\<close> that closes every client's socket, in map order.\<close>

fun closeClients :: "(string \<times> ClientConnection) list \<Rightarrow> socket list \<Rightarrow> socket list" where
  "closeClients [] tr = tr"
| "closeClients ((cid, client) # rest) tr = closeClients rest (tr @ [socket client])"

definition deleteSession :: "string \<Rightarrow> SessionStore \<Rightarrow> SessionStore" where
  "deleteSession sid st =
     (case map_of (sessions st) sid of
        Some session \<Rightarrow>
          st\<lparr>closed := closeClients (clients session) (closed st),
             sessions := AList.delete sid (sessions st)\<rparr>
      | None \<Rightarrow> st)"

definition getSession :: "int \<Rightarrow> string \<Rightarrow> SessionStore \<Rightarrow> Session option \<times> SessionStore" where
  "getSession now sid st =
     (case map_of (sessions st) sid of
        Some session \<Rightarrow>
          if now > expiresAt session then (None, deleteSession sid st)
          else (Some session, st)
      | None \<Rightarrow> (None, st))"

definition validateToken :: "int \<Rightarrow> string \<Rightarrow> string \<Rightarrow> SessionStore \<Rightarrow> bool \<times> SessionStore" where
  "validateToken now sid tok st =
     (case getSession now sid st of
        (Some session, st') \<Rightarrow> (token session = tok, st')
      | (None, st') \<Rightarrow> (False, st'))"

text \<open>
  \<^verbatim>\<open>addClient\<close> reads the clock twice: \<open>now\<close> inside \<^verbatim>\<open>getSession\<close> and \<open>joined\<close>
  for \<^verbatim>\<open>joinedAt\<close>. The session object is mutated in place; in the model the changed
  session is written back under its key, which keeps its position.
\<close>

definition addClient ::
  "int \<Rightarrow> int \<Rightarrow> string \<Rightarrow> string \<Rightarrow> string \<Rightarrow> socket \<Rightarrow> SessionStore \<Rightarrow> bool \<times> SessionStore" where
  "addClient now joined sid cid dn sock st =
     (case getSession now sid st of
        (None, st') \<Rightarrow> (False, st')
      | (Some session, st') \<Rightarrow>
          if length (clients session) \<ge> 2 then (False, st')
          else
            (let client = \<lparr>clientId = cid, displayName = dn, socket = sock, joinedAt = joined\<rparr>;
                 session' = session\<lparr>clients := AList.update cid client (clients session)\<rparr>
             in (True, st'\<lparr>sessions := AList.update sid session' (sessions st')\<rparr>)))"

definition removeClient :: "string \<Rightarrow> string \<Rightarrow> SessionStore \<Rightarrow> SessionStore" where
  "removeClient sid cid st =
     (case map_of (sessions st) sid of
        Some session \<Rightarrow>
          (let session' = session\<lparr>clients := AList.delete cid (clients session)\<rparr>;
               st' = st\<lparr>sessions := AList.update sid session' (sessions st)\<rparr>
           in if length (clients session') = 0 then deleteSession sid st' else st')
      | None \<Rightarrow> st)"

definition getClient ::
  "int \<Rightarrow> string \<Rightarrow> string \<Rightarrow> SessionStore \<Rightarrow> ClientConnection option \<times> SessionStore" where
  "getClient now sid cid st =
     (case getSession now sid st of
        (Some session, st') \<Rightarrow> (map_of (clients session) cid, st')
      | (None, st') \<Rightarrow> (None, st'))"

text \<open>The loop of \<^verbatim>\<open>getOtherClient\<close>: the first entry whose key differs from \<open>cid\<close>.\<close>

fun firstOther :: "string \<Rightarrow> (string \<times> ClientConnection) list \<Rightarrow> ClientConnection option" where
  "firstOther cid [] = None"
| "firstOther cid ((i, client) # rest) = (if i \<noteq> cid then Some client else firstOther cid rest)"

definition getOtherClient ::
  "int \<Rightarrow> string \<Rightarrow> string \<Rightarrow> SessionStore \<Rightarrow> ClientConnection option \<times> SessionStore" where
  "getOtherClient now sid cid st =
     (case getSession now sid st of
        (None, st') \<Rightarrow> (None, st')
      | (Some session, st') \<Rightarrow> (firstOther cid (clients session), st'))"

definition getClients :: "int \<Rightarrow> string \<Rightarrow> SessionStore \<Rightarrow> ClientConnection list \<times> SessionStore" where
  "getClients now sid st =
     (case getSession now sid st of
        (Some session, st') \<Rightarrow> (map snd (clients session), st')
      | (None, st') \<Rightarrow> ([], st'))"

text \<open>
  The loop of \<^verbatim>\<open>cleanupExpiredSessions\<close> over the entries of \<^verbatim>\<open>this.sessions\<close>, with the
  counter \<^verbatim>\<open>cleaned\<close> (which the source only logs). The body deletes nothing but the entry
  it is visiting, so walking the entries present at the start visits what the live
  iteration of the \<^verbatim>\<open>Map\<close> visits.
\<close>

fun sweepLoop :: "int \<Rightarrow> (string \<times> Session) list \<Rightarrow> nat \<times> SessionStore \<Rightarrow> nat \<times> SessionStore" where
  "sweepLoop now [] (cleaned, st) = (cleaned, st)"
| "sweepLoop now ((sid, session) # rest) (cleaned, st) =
     (if now > expiresAt session
      then sweepLoop now rest (cleaned + 1, deleteSession sid st)
      else sweepLoop now rest (cleaned, st))"

definition cleanupExpiredSessions :: "int \<Rightarrow> SessionStore \<Rightarrow> nat \<times> SessionStore" where
  "cleanupExpiredSessions now st = sweepLoop now (sessions st) (0, st)"

definition getActiveSessionCount :: "SessionStore \<Rightarrow> nat" where
  "getActiveSessionCount st = length (sessions st)"

fun countLoop :: "(string \<times> Session) list \<Rightarrow> nat \<Rightarrow> nat" where
  "countLoop [] count = count"
| "countLoop ((sid, session) # rest) count = countLoop rest (count + length (clients session))"

definition getActiveConnectionCount :: "SessionStore \<Rightarrow> nat" where
  "getActiveConnectionCount st = countLoop (sessions st) 0"

definition getTotalSessionsCreated :: "SessionStore \<Rightarrow> nat" where
  "getTotalSessionsCreated st = totalSessionsCreated st"

text \<open>\<^verbatim>\<open>cleanup\<close> on shutdown: every key of the map is deleted in turn.\<close>

fun cleanupLoop :: "string list \<Rightarrow> SessionStore \<Rightarrow> SessionStore" where
  "cleanupLoop [] st = st"
| "cleanupLoop (sid # rest) st = cleanupLoop rest (deleteSession sid st)"

definition cleanup :: "SessionStore \<Rightarrow> SessionStore" where
  "cleanup st = cleanupLoop (map fst (sessions st)) st"

subsection \<open>The statistics resource\<close>

text \<open>
  A response body is a JSON object: a list of fields in the order the handler writes them.
  A field is a counter read from the store, or a value the handler takes from the running
  process (\<^verbatim>\<open>process.uptime()\<close>, \<^verbatim>\<open>new Date().toISOString()\<close>), kept as rendered text.
\<close>

datatype jsfield = Counter nat | Rendered string

text \<open>\<^verbatim>\<open>GET /stats\<close> of the entry point with the start-up function.\<close>

definition statsHandler :: "string \<Rightarrow> string \<Rightarrow> SessionStore \<Rightarrow> (string \<times> jsfield) list" where
  "statsHandler uptime timestamp st =
     [(''activeSessions'', Counter (getActiveSessionCount st)),
      (''activeConnections'', Counter (getActiveConnectionCount st)),
      (''totalSessionsCreated'', Counter (getTotalSessionsCreated st)),
      (''uptime'', Rendered uptime),
      (''timestamp'', Rendered timestamp)]"

text \<open>\<^verbatim>\<open>GET /stats\<close> of the shorter entry point.\<close>

definition statsHandlerShort :: "SessionStore \<Rightarrow> (string \<times> jsfield) list" where
  "statsHandlerShort st =
     [(''activeSessions'', Counter (getActiveSessionCount st)),
      (''activeConnections'', Counter (getActiveConnectionCount st)),
      (''totalSessionsCreated'', Counter (getTotalSessionsCreated st))]"

subsection \<open>Histories of calls\<close>

text \<open>One constructor per public method of the store, the timer's sweep included.\<close>

datatype call =
    CreateSession string string int
  | GetSession int string
  | ValidateToken int string string
  | AddClient int int string string string socket
  | RemoveClient string string
  | GetClient int string string
  | GetOtherClient int string string
  | GetClients int string
  | DeleteSession string
  | CleanupExpiredSessions int
  | Cleanup

fun step :: "call \<Rightarrow> SessionStore \<Rightarrow> SessionStore" where
  "step (CreateSession sid tok now) st = snd (createSession sid tok now st)"
| "step (GetSession now sid) st = snd (getSession now sid st)"
| "step (ValidateToken now sid tok) st = snd (validateToken now sid tok st)"
| "step (AddClient now joined sid cid dn sock) st = snd (addClient now joined sid cid dn sock st)"
| "step (RemoveClient sid cid) st = removeClient sid cid st"
| "step (GetClient now sid cid) st = snd (getClient now sid cid st)"
| "step (GetOtherClient now sid cid) st = snd (getOtherClient now sid cid st)"
| "step (GetClients now sid) st = snd (getClients now sid st)"
| "step (DeleteSession sid) st = deleteSession sid st"
| "step (CleanupExpiredSessions now) st = snd (cleanupExpiredSessions now st)"
| "step Cleanup st = cleanup st"

fun run :: "call list \<Rightarrow> SessionStore \<Rightarrow> SessionStore" where
  "run [] st = st"
| "run (c # cs) st = run cs (step c st)"

fun isCreate :: "call \<Rightarrow> bool" where
  "isCreate (CreateSession sid tok now) = True"
| "isCreate c = False"

subsection \<open>The create handler\<close>







subsection \<open>Predicates on stores\<close>

text \<open>The keys of each map are pairwise distinct, as in a JavaScript \<^verbatim>\<open>Map\<close>.\<close>

definition wellFormed :: "SessionStore \<Rightarrow> bool" where
  "wellFormed st \<longleftrightarrow>
     distinct (map fst (sessions st)) \<and>
     list_all (\<lambda>(sid, session). distinct (map fst (clients session))) (sessions st)"

definition atMostTwo :: "SessionStore \<Rightarrow> bool" where
  "atMostTwo st \<longleftrightarrow> list_all (\<lambda>(sid, session). length (clients session) \<le> 2) (sessions st)"


text \<open>
  The identifiers of the members of session \<open>sid\<close>, in map order; none when the registry has
  no such session.
\<close>

definition membersOf :: "SessionStore \<Rightarrow> string \<Rightarrow> string list" where
  "membersOf st sid = (case map_of (sessions st) sid of None \<Rightarrow> [] | Some session \<Rightarrow> map fst (clients session))"

text \<open>The sockets of a session's members, in map order.\<close>

definition socketsOf :: "Session \<Rightarrow> socket list" where
  "socketsOf session = map (\<lambda>(cid, client). socket client) (clients session)"

text \<open>The test both \<^verbatim>\<open>getSession\<close> and the sweep apply: the expiry lies strictly in the past.\<close>

definition expiredAt :: "int \<Rightarrow> string \<times> Session \<Rightarrow> bool" where
  "expiredAt now e \<longleftrightarrow> now > expiresAt (snd e)"


text \<open>
  The sweep in the specification's words: the sessions with \<open>expires_at \<le> now\<close> are
  deleted, the others stay.
\<close>

definition spec_sweep_sessions :: "int \<Rightarrow> (string \<times> Session) list \<Rightarrow> (string \<times> Session) list" where
  "spec_sweep_sessions now ss = filter (\<lambda>(sid, session). \<not> expiresAt session \<le> now) ss"

subsection \<open>Example stores\<close>

text \<open>
  Scenario S1 of the specification: a creator \<open>A\<close> alone in session \<open>S\<close> created at time 0,
  and the same session after \<open>B\<close> has joined.
\<close>

definition waitingStore :: SessionStore where
  "waitingStore = run [CreateSession ''S'' ''K'' 0, AddClient 1 1 ''S'' ''A'' ''Alice'' 7] emptyStore"

definition pairedStore :: SessionStore where
  "pairedStore = run [CreateSession ''S'' ''K'' 0, AddClient 1 1 ''S'' ''A'' ''Alice'' 7,
                      AddClient 1000 1000 ''S'' ''B'' ''Bob'' 8] emptyStore"

section \<open>Auxiliary facts\<close>

lemma closeClients_append: "closeClients cs tr = tr @ map (\<lambda>(cid, client). socket client) cs"
  by (induction cs tr rule: closeClients.induct) auto

lemma map_of_None_delete: "map_of al k = None \<Longrightarrow> AList.delete k al = al"
  by (simp add: map_of_eq_None_iff)

lemma sessions_deleteSession: "sessions (deleteSession sid st) = AList.delete sid (sessions st)"
  by (simp add: deleteSession_def map_of_None_delete split: option.splits)

lemma total_deleteSession: "totalSessionsCreated (deleteSession sid st) = totalSessionsCreated st"
  by (simp add: deleteSession_def split: option.splits)

lemma closed_deleteSession:
  "closed (deleteSession sid st) =
     closed st @ (case map_of (sessions st) sid of None \<Rightarrow> [] | Some session \<Rightarrow> socketsOf session)"
  by (simp add: deleteSession_def closeClients_append socketsOf_def split: option.splits)

lemma sweepLoop_sessions:
  "distinct (map fst es) \<Longrightarrow> (\<forall>e \<in> set es. map_of (sessions st) (fst e) = Some (snd e)) \<Longrightarrow>
   fst (sweepLoop now es (c, st)) = c + length (filter (expiredAt now) es) \<and>
   sessions (snd (sweepLoop now es (c, st))) =
      filter (\<lambda>e. fst e \<notin> fst ` set (filter (expiredAt now) es)) (sessions st) \<and>
   closed (snd (sweepLoop now es (c, st))) =
      closed st @ concat (map (\<lambda>e. socketsOf (snd e)) (filter (expiredAt now) es)) \<and>
   totalSessionsCreated (snd (sweepLoop now es (c, st))) = totalSessionsCreated st"
proof (induction es arbitrary: c st)
  case Nil
  then show ?case by simp
next
  case (Cons e es)
  obtain sid session where e: "e = (sid, session)" by (cases e)
  show ?case
  proof (cases "now > expiresAt session")
    case True
    have d: "distinct (map fst es)" using Cons.prems(1) by simp
    have notin: "sid \<notin> fst ` set es" using Cons.prems(1) e by simp
    have inv: "\<forall>e' \<in> set es. map_of (sessions (deleteSession sid st)) (fst e') = Some (snd e')"
    proof
      fix e' assume m: "e' \<in> set es"
      then have "fst e' \<noteq> sid" using notin by auto
      then show "map_of (sessions (deleteSession sid st)) (fst e') = Some (snd e')"
        using Cons.prems(2) m by (simp add: sessions_deleteSession)
    qed
    have here: "map_of (sessions st) sid = Some session" using Cons.prems(2) e by simp
    note ih = Cons.IH [OF d inv, of "c + 1"]
    show ?thesis using True ih e here
      by (auto simp: expiredAt_def sessions_deleteSession closed_deleteSession total_deleteSession
            AList.delete_eq intro!: filter_cong)
  next
    case False
    have d: "distinct (map fst es)" using Cons.prems(1) by simp
    have inv: "\<forall>e' \<in> set es. map_of (sessions st) (fst e') = Some (snd e')"
      using Cons.prems(2) by simp
    note ih = Cons.IH [OF d inv, of c]
    show ?thesis using False ih e
      by (auto simp: expiredAt_def)
  qed
qed

lemma list_all_update: "list_all P al \<Longrightarrow> P (k, v) \<Longrightarrow> list_all P (AList.update k v al)"
  by (induction al) auto

lemma list_all_delete: "list_all P al \<Longrightarrow> list_all P (AList.delete k al)"
  by (simp add: AList.delete_eq list_all_iff)

lemma map_of_list_all: "list_all P al \<Longrightarrow> map_of al k = Some v \<Longrightarrow> P (k, v)"
  by (auto simp: list_all_iff dest: map_of_SomeD)

lemma sweepLoop_total: "totalSessionsCreated (snd (sweepLoop now es (c, st))) = totalSessionsCreated st"
  by (induction es arbitrary: c st) (auto simp: total_deleteSession)

lemma cleanupLoop_total: "totalSessionsCreated (cleanupLoop ks st) = totalSessionsCreated st"
  by (induction ks arbitrary: st) (auto simp: total_deleteSession)

lemma getSession_cases:
  "getSession now sid st = (r, st') \<Longrightarrow>
     (r = None \<and> (st' = st \<or> st' = deleteSession sid st)) \<or>
     (\<exists>session. r = Some session \<and> st' = st \<and> map_of (sessions st) sid = Some session
        \<and> \<not> now > expiresAt session)"
  by (auto simp: getSession_def split: option.splits if_splits)

lemma atMostTwo_deleteSession: "atMostTwo st \<Longrightarrow> atMostTwo (deleteSession sid st)"
  by (simp add: atMostTwo_def sessions_deleteSession list_all_delete)

lemma atMostTwo_getSession: "atMostTwo st \<Longrightarrow> atMostTwo (snd (getSession now sid st))"
  by (auto simp: getSession_def atMostTwo_deleteSession split: option.splits)

lemma atMostTwo_createSession: "atMostTwo st \<Longrightarrow> atMostTwo (snd (createSession sid tok now st))"
  by (simp add: atMostTwo_def createSession_def Let_def list_all_update)

lemma length_update_le: "length (AList.update k v al) \<le> Suc (length al)"
  by (induction al) auto

lemma atMostTwo_addClient:
  assumes "atMostTwo st"
  shows "atMostTwo (snd (addClient now joined sid cid dn sock st))"
proof (cases "getSession now sid st")
  case (Pair r st')
  have a: "atMostTwo st'" using atMostTwo_getSession [OF assms, of now sid] Pair by simp
  show ?thesis
  proof (cases r)
    case None
    then show ?thesis using Pair a by (simp add: addClient_def)
  next
    case (Some session)
    show ?thesis
    proof (cases "2 \<le> length (clients session)")
      case True
      then show ?thesis using Pair Some a by (simp add: addClient_def)
    next
      case False
      then have "length (AList.update cid v (clients session)) \<le> 2" for v
        using length_update_le [of cid v "clients session"] by simp
      then show ?thesis using Pair Some a False
        by (simp add: addClient_def Let_def atMostTwo_def list_all_update)
    qed
  qed
qed

lemma atMostTwo_removeClient: "atMostTwo st \<Longrightarrow> atMostTwo (removeClient sid cid st)"
proof (cases "map_of (sessions st) sid")
  case None
  assume "atMostTwo st"
  then show ?thesis using None by (simp add: removeClient_def)
next
  case (Some session)
  assume a: "atMostTwo st"
  have "length (clients session) \<le> 2"
    using map_of_list_all [OF a [unfolded atMostTwo_def] Some] by simp
  then have "length (AList.delete cid (clients session)) \<le> 2"
    using length_delete_le [of cid "clients session"] by simp
  then have b: "atMostTwo (st\<lparr>sessions := AList.update sid (session\<lparr>clients := AList.delete cid (clients session)\<rparr>) (sessions st)\<rparr>)"
    using a by (simp add: atMostTwo_def list_all_update)
  then have "atMostTwo (removeClient sid cid st)
      \<or> removeClient sid cid st = deleteSession sid (st\<lparr>sessions := AList.update sid (session\<lparr>clients := AList.delete cid (clients session)\<rparr>) (sessions st)\<rparr>)"
    using Some by (simp add: removeClient_def Let_def)
  then show ?thesis using b atMostTwo_deleteSession by metis
qed

lemma atMostTwo_sweepLoop: "atMostTwo st \<Longrightarrow> atMostTwo (snd (sweepLoop now es (c, st)))"
  by (induction es arbitrary: c st) (auto simp: atMostTwo_deleteSession)

lemma atMostTwo_cleanupLoop: "atMostTwo st \<Longrightarrow> atMostTwo (cleanupLoop ks st)"
  by (induction ks arbitrary: st) (auto simp: atMostTwo_deleteSession)

lemma atMostTwo_step: "atMostTwo st \<Longrightarrow> atMostTwo (step c st)"
proof (cases c)
  case (ValidateToken now sid tok)
  assume "atMostTwo st"
  then show ?thesis using ValidateToken atMostTwo_getSession [of st now sid]
    by (auto simp: validateToken_def split: prod.splits option.splits)
next
  case (GetClient now sid cid)
  assume "atMostTwo st"
  then show ?thesis using GetClient atMostTwo_getSession [of st now sid]
    by (auto simp: getClient_def split: prod.splits option.splits)
next
  case (GetOtherClient now sid cid)
  assume "atMostTwo st"
  then show ?thesis using GetOtherClient atMostTwo_getSession [of st now sid]
    by (auto simp: getOtherClient_def split: prod.splits option.splits)
next
  case (GetClients now sid)
  assume "atMostTwo st"
  then show ?thesis using GetClients atMostTwo_getSession [of st now sid]
    by (auto simp: getClients_def split: prod.splits option.splits)
qed (simp_all add: atMostTwo_createSession atMostTwo_getSession atMostTwo_addClient
       atMostTwo_removeClient atMostTwo_deleteSession atMostTwo_sweepLoop atMostTwo_cleanupLoop
       cleanupExpiredSessions_def cleanup_def)



lemma wellFormed_deleteSession: "wellFormed st \<Longrightarrow> wellFormed (deleteSession sid st)"
  by (simp add: wellFormed_def sessions_deleteSession list_all_delete distinct_delete)

lemma wellFormed_getSession: "wellFormed st \<Longrightarrow> wellFormed (snd (getSession now sid st))"
  by (auto simp: getSession_def wellFormed_deleteSession split: option.splits)

lemma wellFormed_createSession: "wellFormed st \<Longrightarrow> wellFormed (snd (createSession sid tok now st))"
  by (simp add: wellFormed_def createSession_def Let_def list_all_update distinct_update)

lemma wellFormed_session_update:
  "wellFormed st \<Longrightarrow> distinct (map fst (clients session')) \<Longrightarrow>
   wellFormed (st\<lparr>sessions := AList.update sid session' (sessions st)\<rparr>)"
  by (simp add: wellFormed_def list_all_update distinct_update)

lemma wellFormed_clients: "wellFormed st \<Longrightarrow> map_of (sessions st) sid = Some session \<Longrightarrow> distinct (map fst (clients session))"
  using map_of_list_all [of "\<lambda>(sid, session). distinct (map fst (clients session))" "sessions st" sid session]
  by (simp add: wellFormed_def)

lemma wellFormed_addClient:
  assumes "wellFormed st"
  shows "wellFormed (snd (addClient now joined sid cid dn sock st))"
proof (cases "getSession now sid st")
  case (Pair r st')
  have a: "wellFormed st'" using wellFormed_getSession [OF assms, of now sid] Pair by simp
  show ?thesis
  proof (cases r)
    case None
    then show ?thesis using Pair a by (simp add: addClient_def)
  next
    case (Some session)
    from getSession_cases [OF Pair] Some
    have "st' = st" and "map_of (sessions st) sid = Some session" by auto
    then have "distinct (map fst (clients session))" using wellFormed_clients assms by blast
    then have "distinct (map fst (AList.update cid v (clients session)))" for v
      by (simp add: distinct_update)
    then show ?thesis using Pair Some a
      by (simp add: addClient_def Let_def wellFormed_session_update)
  qed
qed

lemma wellFormed_removeClient: "wellFormed st \<Longrightarrow> wellFormed (removeClient sid cid st)"
proof (cases "map_of (sessions st) sid")
  case None
  assume "wellFormed st"
  then show ?thesis using None by (simp add: removeClient_def)
next
  case (Some session)
  assume a: "wellFormed st"
  have "distinct (map fst (AList.delete cid (clients session)))"
    using wellFormed_clients [OF a Some] by (simp add: distinct_delete)
  then have b: "wellFormed (st\<lparr>sessions := AList.update sid (session\<lparr>clients := AList.delete cid (clients session)\<rparr>) (sessions st)\<rparr>)"
    using a by (simp add: wellFormed_session_update)
  have "wellFormed (removeClient sid cid st)
      \<or> removeClient sid cid st = deleteSession sid (st\<lparr>sessions := AList.update sid (session\<lparr>clients := AList.delete cid (clients session)\<rparr>) (sessions st)\<rparr>)"
    using Some b by (simp add: removeClient_def Let_def)
  then show ?thesis using b wellFormed_deleteSession by metis
qed

lemma wellFormed_sweepLoop: "wellFormed st \<Longrightarrow> wellFormed (snd (sweepLoop now es (c, st)))"
  by (induction es arbitrary: c st) (auto simp: wellFormed_deleteSession)

lemma wellFormed_cleanupLoop: "wellFormed st \<Longrightarrow> wellFormed (cleanupLoop ks st)"
  by (induction ks arbitrary: st) (auto simp: wellFormed_deleteSession)

lemma wellFormed_step: "wellFormed st \<Longrightarrow> wellFormed (step c st)"
proof (cases c)
  case (ValidateToken now sid tok)
  assume "wellFormed st"
  then show ?thesis using ValidateToken wellFormed_getSession [of st now sid]
    by (auto simp: validateToken_def split: prod.splits option.splits)
next
  case (GetClient now sid cid)
  assume "wellFormed st"
  then show ?thesis using GetClient wellFormed_getSession [of st now sid]
    by (auto simp: getClient_def split: prod.splits option.splits)
next
  case (GetOtherClient now sid cid)
  assume "wellFormed st"
  then show ?thesis using GetOtherClient wellFormed_getSession [of st now sid]
    by (auto simp: getOtherClient_def split: prod.splits option.splits)
next
  case (GetClients now sid)
  assume "wellFormed st"
  then show ?thesis using GetClients wellFormed_getSession [of st now sid]
    by (auto simp: getClients_def split: prod.splits option.splits)
qed (simp_all add: wellFormed_createSession wellFormed_getSession wellFormed_addClient
       wellFormed_removeClient wellFormed_deleteSession wellFormed_sweepLoop wellFormed_cleanupLoop
       cleanupExpiredSessions_def cleanup_def)

lemma wellFormed_run: "wellFormed st \<Longrightarrow> wellFormed (run cs st)"
  by (induction cs arbitrary: st) (auto simp: wellFormed_step)

lemma wellFormed_empty: "wellFormed emptyStore"
  by (simp add: wellFormed_def emptyStore_def)

lemma getSession_total: "totalSessionsCreated (snd (getSession now sid st)) = totalSessionsCreated st"
  by (auto simp: getSession_def total_deleteSession split: option.splits)

lemma step_total:
  "totalSessionsCreated (step c st) = totalSessionsCreated st + (if isCreate c then 1 else 0)"
proof (cases c)
  case (AddClient now joined sid cid dn sock)
  then show ?thesis using getSession_total [of now sid st]
    by (auto simp: addClient_def Let_def split: prod.splits option.splits)
next
  case (RemoveClient sid cid)
  then show ?thesis
    by (auto simp: removeClient_def Let_def total_deleteSession split: option.splits)
next
  case (ValidateToken now sid tok)
  then show ?thesis using getSession_total [of now sid st]
    by (auto simp: validateToken_def split: prod.splits option.splits)
next
  case (GetClient now sid cid)
  then show ?thesis using getSession_total [of now sid st]
    by (auto simp: getClient_def split: prod.splits option.splits)
next
  case (GetOtherClient now sid cid)
  then show ?thesis using getSession_total [of now sid st]
    by (auto simp: getOtherClient_def split: prod.splits option.splits)
next
  case (GetClients now sid)
  then show ?thesis using getSession_total [of now sid st]
    by (auto simp: getClients_def split: prod.splits option.splits)
qed (simp_all add: createSession_def Let_def getSession_total total_deleteSession
       sweepLoop_total cleanupLoop_total cleanupExpiredSessions_def cleanup_def)

lemma run_total:
  "totalSessionsCreated (run cs st) = totalSessionsCreated st + length (filter isCreate cs)"
  by (induction cs arbitrary: st) (auto simp: step_total)

lemma countLoop_sum: "countLoop ss n = n + sum_list (map (\<lambda>(sid, session). length (clients session)) ss)"
  by (induction ss n rule: countLoop.induct) auto

lemma waitingStore_value:
  "waitingStore =
     \<lparr>sessions = [(''S'', \<lparr>sessionId = ''S'', token = ''K'', createdAt = 0, expiresAt = 3600000,
          clients = [(''A'', \<lparr>clientId = ''A'', displayName = ''Alice'', socket = 7, joinedAt = 1\<rparr>)]\<rparr>)],
      totalSessionsCreated = 1, closed = []\<rparr>"
  by (simp add: waitingStore_def emptyStore_def createSession_def addClient_def getSession_def Let_def)

lemma pairedStore_value:
  "pairedStore =
     \<lparr>sessions = [(''S'', \<lparr>sessionId = ''S'', token = ''K'', createdAt = 0, expiresAt = 3600000,
          clients = [(''A'', \<lparr>clientId = ''A'', displayName = ''Alice'', socket = 7, joinedAt = 1\<rparr>),
                     (''B'', \<lparr>clientId = ''B'', displayName = ''Bob'', socket = 8, joinedAt = 1000\<rparr>)]\<rparr>)],
      totalSessionsCreated = 1, closed = []\<rparr>"
  by (simp add: pairedStore_def emptyStore_def createSession_def addClient_def getSession_def Let_def)

















section \<open>Properties\<close>

subsection \<open>The registry invariant\<close>




subsection \<open>At most two members\<close>

text \<open>
  Claim C2, amended. An attempt to add a member to a session that already has two members
  fails: \<open>addClient\<close> returns \<open>false\<close> (the only failure value it has; the caller reports it
  as \<^verbatim>\<open>SESSION_FULL\<close>). When the session has not expired (\<open>now \<le> expires_at\<close>) the store, and
  with it the membership, is left exactly as it was. When the expiry has passed, the lookup
  inside \<open>addClient\<close> deletes the session and closes the sockets of its members. Every call
  of a public method preserves the bound of two members per session.
\<close>

theorem addClient_full:
  assumes "map_of (sessions st) sid = Some s" and "2 \<le> length (clients s)"
  shows "fst (addClient now joined sid cid dn sock st) = False
       \<and> (now \<le> expiresAt s \<longrightarrow> snd (addClient now joined sid cid dn sock st) = st)
       \<and> (expiresAt s < now \<longrightarrow>
             snd (addClient now joined sid cid dn sock st) = deleteSession sid st
           \<and> membersOf (deleteSession sid st) sid = []
           \<and> closed (deleteSession sid st) = closed st @ socketsOf s)
       \<and> (\<forall>c st'. atMostTwo st' \<longrightarrow> atMostTwo (step c st'))"
proof -
  have "map_of (sessions (deleteSession sid st)) sid = None"
    by (simp add: sessions_deleteSession delete_conv')
  then show ?thesis using assms
    by (simp add: addClient_def getSession_def atMostTwo_step membersOf_def closed_deleteSession)
qed

text \<open>
  Scenario S3: a third client \<open>C\<close> tries to join the paired session at time 2000, and
  again at time 3600001, after the expiry.
\<close>

theorem addClient_full_witness:
  "map_of (sessions pairedStore) ''S'' = Some (snd (hd (sessions pairedStore)))
   \<and> 2 \<le> length (clients (snd (hd (sessions pairedStore))))
   \<and> addClient 2000 2000 ''S'' ''C'' ''Carol'' 9 pairedStore = (False, pairedStore)
   \<and> addClient 3600001 3600001 ''S'' ''C'' ''Carol'' 9 pairedStore
        = (False, \<lparr>sessions = [], totalSessionsCreated = 1, closed = [7, 8]\<rparr>)
   \<and> atMostTwo pairedStore
   \<and> atMostTwo (step (AddClient 2000 2000 ''S'' ''C'' ''Carol'' 9) pairedStore)"
proof -
  have h1: "map_of (sessions pairedStore) ''S'' = Some (snd (hd (sessions pairedStore)))"
    by (simp add: pairedStore_value)
  have h2: "2 \<le> length (clients (snd (hd (sessions pairedStore))))"
    by (simp add: pairedStore_value)
  have h3: "atMostTwo pairedStore"
    by (simp add: pairedStore_value atMostTwo_def)
  have h4: "2000 \<le> expiresAt (snd (hd (sessions pairedStore)))"
    by (simp add: pairedStore_value)
  have h5: "expiresAt (snd (hd (sessions pairedStore))) < 3600001"
    by (simp add: pairedStore_value)
  have d: "deleteSession ''S'' pairedStore = \<lparr>sessions = [], totalSessionsCreated = 1, closed = [7, 8]\<rparr>"
    by (simp add: deleteSession_def pairedStore_value)
  note live = addClient_full [OF h1 h2, of 2000 2000 "''C''" "''Carol''" 9]
  note late = addClient_full [OF h1 h2, of 3600001 3600001 "''C''" "''Carol''" 9]
  have a: "addClient 2000 2000 ''S'' ''C'' ''Carol'' 9 pairedStore = (False, pairedStore)"
    using live h4 by (metis prod.collapse)
  have b: "addClient 3600001 3600001 ''S'' ''C'' ''Carol'' 9 pairedStore
        = (False, \<lparr>sessions = [], totalSessionsCreated = 1, closed = [7, 8]\<rparr>)"
    using late h5 d by (metis prod.collapse)
  have c: "atMostTwo (step (AddClient 2000 2000 ''S'' ''C'' ''Carol'' 9) pairedStore)"
    using live h3 by blast
  show ?thesis using h1 h2 h3 a b c by blast
qed

text \<open>
  Without the restriction to sessions that have not expired the property fails. The paired
  session expires at 3600000. A join whose token check reads the clock at 3600000 passes
  it; when \<open>addClient\<close> then reads 3600001 the call fails, but the session had members \<open>A\<close>
  and \<open>B\<close> before and is gone afterwards, and both sockets have been closed.
\<close>

theorem addClient_full_counterexample:
  "membersOf pairedStore ''S'' = [''A'', ''B'']
   \<and> validateToken 3600000 ''S'' ''K'' pairedStore = (True, pairedStore)
   \<and> fst (addClient 3600001 3600001 ''S'' ''C'' ''Carol'' 9 pairedStore) = False
   \<and> membersOf (snd (addClient 3600001 3600001 ''S'' ''C'' ''Carol'' 9 pairedStore)) ''S'' = []
   \<and> closed (snd (addClient 3600001 3600001 ''S'' ''C'' ''Carol'' 9 pairedStore)) = [7, 8]"
  by (simp add: membersOf_def pairedStore_value validateToken_def addClient_def getSession_def
        deleteSession_def)

subsection \<open>Adding a client identifier twice\<close>

text \<open>
  Claim C3, amended. \<open>addClient\<close> has no duplicate check and no outcome for a duplicate.
  For a live session and a \<open>client_id\<close> that is already a member: if the session has fewer
  than two members the call succeeds and replaces that member's record (display name,
  socket, join time) in place, the set of member identifiers staying as it was; if the
  session has two members the call fails as for any other identifier and changes nothing.
  Identifiers stay unique within a session, since members are keyed by \<open>client_id\<close>: every
  store reached from the empty one has pairwise distinct keys.
\<close>

theorem addClient_duplicate:
  assumes "map_of (sessions st) sid = Some s" and "now \<le> expiresAt s"
      and "map_of (clients s) cid = Some c"
  shows "(length (clients s) < 2 \<longrightarrow>
            addClient now joined sid cid dn sock st =
              (True, st\<lparr>sessions := AList.update sid
                   (s\<lparr>clients := AList.update cid
                        \<lparr>clientId = cid, displayName = dn, socket = sock, joinedAt = joined\<rparr>
                        (clients s)\<rparr>) (sessions st)\<rparr>)
          \<and> map fst (AList.update cid
                        \<lparr>clientId = cid, displayName = dn, socket = sock, joinedAt = joined\<rparr>
                        (clients s)) = map fst (clients s))
       \<and> (2 \<le> length (clients s) \<longrightarrow> addClient now joined sid cid dn sock st = (False, st))
       \<and> (\<forall>cs. wellFormed (run cs emptyStore))"
proof -
  have "cid \<in> fst ` set (clients s)"
    using assms(3) by (metis domI dom_map_of_conv_image_fst)
  then have "map fst (AList.update cid v (clients s)) = map fst (clients s)" for v
    by (simp add: update_keys)
  then show ?thesis using assms(1,2)
    by (simp add: addClient_def getSession_def Let_def wellFormed_run wellFormed_empty)
qed

text \<open>
  The creator \<open>A\<close> is alone in the session; a second \<open>addClient\<close> with identifier \<open>A\<close> at
  time 2 succeeds and overwrites the record. In the paired session the same call fails.
\<close>

theorem addClient_duplicate_witness:
  "map_of (sessions waitingStore) ''S'' = Some (snd (hd (sessions waitingStore)))
   \<and> 2 \<le> expiresAt (snd (hd (sessions waitingStore)))
   \<and> map_of (clients (snd (hd (sessions waitingStore)))) ''A''
        = Some \<lparr>clientId = ''A'', displayName = ''Alice'', socket = 7, joinedAt = 1\<rparr>
   \<and> addClient 2 3 ''S'' ''A'' ''Mallory'' 9 waitingStore =
        (True, \<lparr>sessions = [(''S'', \<lparr>sessionId = ''S'', token = ''K'', createdAt = 0, expiresAt = 3600000,
            clients = [(''A'', \<lparr>clientId = ''A'', displayName = ''Mallory'', socket = 9, joinedAt = 3\<rparr>)]\<rparr>)],
          totalSessionsCreated = 1, closed = []\<rparr>)
   \<and> addClient 2000 2000 ''S'' ''A'' ''Mallory'' 9 pairedStore = (False, pairedStore)
   \<and> wellFormed (run [CreateSession ''S'' ''K'' 0, AddClient 1 1 ''S'' ''A'' ''Alice'' 7] emptyStore)"
proof -
  have h1: "map_of (sessions waitingStore) ''S'' = Some (snd (hd (sessions waitingStore)))"
    by (simp add: waitingStore_value)
  have h2: "2 \<le> expiresAt (snd (hd (sessions waitingStore)))"
    by (simp add: waitingStore_value)
  have h3: "map_of (clients (snd (hd (sessions waitingStore)))) ''A''
        = Some \<lparr>clientId = ''A'', displayName = ''Alice'', socket = 7, joinedAt = 1\<rparr>"
    by (simp add: waitingStore_value)
  have p1: "map_of (sessions pairedStore) ''S'' = Some (snd (hd (sessions pairedStore)))"
    by (simp add: pairedStore_value)
  have p2: "2000 \<le> expiresAt (snd (hd (sessions pairedStore)))"
    by (simp add: pairedStore_value)
  have p3: "map_of (clients (snd (hd (sessions pairedStore)))) ''A''
        = Some \<lparr>clientId = ''A'', displayName = ''Alice'', socket = 7, joinedAt = 1\<rparr>"
    by (simp add: pairedStore_value)
  note one = addClient_duplicate [OF h1 h2 h3, of 3 "''Mallory''" 9]
  note two = addClient_duplicate [OF p1 p2 p3, of 2000 "''Mallory''" 9]
  have w: "wellFormed (run [CreateSession ''S'' ''K'' 0, AddClient 1 1 ''S'' ''A'' ''Alice'' 7] emptyStore)"
    using one by blast
  have l: "length (clients (snd (hd (sessions waitingStore)))) < 2"
    by (simp add: waitingStore_value)
  have a: "addClient 2 3 ''S'' ''A'' ''Mallory'' 9 waitingStore =
        (True, \<lparr>sessions = [(''S'', \<lparr>sessionId = ''S'', token = ''K'', createdAt = 0, expiresAt = 3600000,
            clients = [(''A'', \<lparr>clientId = ''A'', displayName = ''Mallory'', socket = 9, joinedAt = 3\<rparr>)]\<rparr>)],
          totalSessionsCreated = 1, closed = []\<rparr>)"
    using one l by (simp add: waitingStore_value)
  have f: "2 \<le> length (clients (snd (hd (sessions pairedStore))))"
    by (simp add: pairedStore_value)
  have b: "addClient 2000 2000 ''S'' ''A'' ''Mallory'' 9 pairedStore = (False, pairedStore)"
    using two f by blast
  show ?thesis using h1 h2 h3 w a b by blast
qed

text \<open>
  No rejection of a duplicate: with \<open>A\<close> already a member, adding \<open>A\<close> again returns
  \<open>true\<close>, and the member record of \<open>A\<close> is no longer the one stored before.
\<close>

theorem duplicate_client_counterexample:
  "map_of (clients (snd (hd (sessions waitingStore)))) ''A''
      = Some \<lparr>clientId = ''A'', displayName = ''Alice'', socket = 7, joinedAt = 1\<rparr>
   \<and> fst (addClient 2 3 ''S'' ''A'' ''Mallory'' 9 waitingStore) = True
   \<and> map_of (clients (snd (hd (sessions (snd (addClient 2 3 ''S'' ''A'' ''Mallory'' 9 waitingStore)))))) ''A''
      = Some \<lparr>clientId = ''A'', displayName = ''Mallory'', socket = 9, joinedAt = 3\<rparr>"
  by (simp add: waitingStore_value addClient_def getSession_def Let_def)

subsection \<open>Token validation\<close>

text \<open>
  Claim C4. \<open>validateToken\<close> returns \<open>false\<close> for a session identifier that is not in the
  registry and for a session whose expiry lies strictly in the past; for a session that is
  in the registry and not expired it returns \<open>true\<close> exactly when the stored token equals the
  presented one.
\<close>

theorem validateToken_semantics:
  "fst (validateToken now sid tok st) =
     (case map_of (sessions st) sid of
        None \<Rightarrow> False
      | Some session \<Rightarrow> \<not> now > expiresAt session \<and> token session = tok)"
  by (simp add: validateToken_def getSession_def split: option.splits)

subsection \<open>Removing a member\<close>

text \<open>
  Claim C5. For a session in the registry and a member \<open>cid\<close> of it, \<open>removeClient\<close> removes
  that member and keeps the others. If no member is left, the session goes through
  \<open>deleteSession\<close>: its record is removed from the registry and the sockets of the members
  that remain (there are none) are closed. In general \<open>deleteSession\<close> removes the record of
  a session and closes the socket of each of its members.
\<close>

theorem removeClient_member:
  assumes "map_of (sessions st) sid = Some s" and "map_of (clients s) cid = Some c"
  shows "removeClient sid cid st =
           (if AList.delete cid (clients s) = []
            then deleteSession sid (st\<lparr>sessions := AList.update sid (s\<lparr>clients := []\<rparr>) (sessions st)\<rparr>)
            else st\<lparr>sessions := AList.update sid (s\<lparr>clients := AList.delete cid (clients s)\<rparr>) (sessions st)\<rparr>)
       \<and> map_of (AList.delete cid (clients s)) cid = None
       \<and> (\<forall>k. k \<noteq> cid \<longrightarrow> map_of (AList.delete cid (clients s)) k = map_of (clients s) k)
       \<and> (AList.delete cid (clients s) = [] \<longrightarrow>
             removeClient sid cid st = st\<lparr>sessions := AList.delete sid (sessions st)\<rparr>
           \<and> map_of (sessions (removeClient sid cid st)) sid = None
           \<and> closed (removeClient sid cid st)
               = closed st @ socketsOf (s\<lparr>clients := AList.delete cid (clients s)\<rparr>))
       \<and> (\<forall>st' s'. map_of (sessions st') sid = Some s' \<longrightarrow>
             map_of (sessions (deleteSession sid st')) sid = None
           \<and> closed (deleteSession sid st') = closed st' @ socketsOf s')"
proof -
  have a: "removeClient sid cid st =
           (if AList.delete cid (clients s) = []
            then deleteSession sid (st\<lparr>sessions := AList.update sid (s\<lparr>clients := []\<rparr>) (sessions st)\<rparr>)
            else st\<lparr>sessions := AList.update sid (s\<lparr>clients := AList.delete cid (clients s)\<rparr>) (sessions st)\<rparr>)"
    using assms(1) by (simp add: removeClient_def Let_def)
  have b: "deleteSession sid (st\<lparr>sessions := AList.update sid (s\<lparr>clients := []\<rparr>) (sessions st)\<rparr>)
         = st\<lparr>sessions := AList.delete sid (sessions st)\<rparr>"
    by (simp add: deleteSession_def update_conv' delete_update_same)
  have d: "\<forall>st' s'. map_of (sessions st') sid = Some s' \<longrightarrow>
             map_of (sessions (deleteSession sid st')) sid = None
           \<and> closed (deleteSession sid st') = closed st' @ socketsOf s'"
    by (simp add: sessions_deleteSession delete_conv' closed_deleteSession)
  have e: "AList.delete cid (clients s) = [] \<longrightarrow>
             removeClient sid cid st = st\<lparr>sessions := AList.delete sid (sessions st)\<rparr>
           \<and> map_of (sessions (removeClient sid cid st)) sid = None
           \<and> closed (removeClient sid cid st)
               = closed st @ socketsOf (s\<lparr>clients := AList.delete cid (clients s)\<rparr>)"
    using a b by (simp add: delete_conv' socketsOf_def)
  have f: "map_of (AList.delete cid (clients s)) cid = None
       \<and> (\<forall>k. k \<noteq> cid \<longrightarrow> map_of (AList.delete cid (clients s)) k = map_of (clients s) k)"
    by (simp add: delete_conv')
  show ?thesis using a d e f by blast
qed

text \<open>
  Scenario S4: \<open>B\<close> leaves the paired session, which persists with \<open>A\<close> alone; then \<open>A\<close>
  leaves and the session is gone. Deleting the paired session closes both sockets.
\<close>

theorem removeClient_member_witness:
  "map_of (sessions pairedStore) ''S'' = Some (snd (hd (sessions pairedStore)))
   \<and> map_of (clients (snd (hd (sessions pairedStore)))) ''B''
       = Some \<lparr>clientId = ''B'', displayName = ''Bob'', socket = 8, joinedAt = 1000\<rparr>
   \<and> removeClient ''S'' ''B'' pairedStore = waitingStore
   \<and> removeClient ''S'' ''A'' waitingStore = \<lparr>sessions = [], totalSessionsCreated = 1, closed = []\<rparr>
   \<and> closed (deleteSession ''S'' pairedStore) = [7, 8]"
proof -
  have h1: "map_of (sessions pairedStore) ''S'' = Some (snd (hd (sessions pairedStore)))"
    by (simp add: pairedStore_value)
  have h2: "map_of (clients (snd (hd (sessions pairedStore)))) ''B''
       = Some \<lparr>clientId = ''B'', displayName = ''Bob'', socket = 8, joinedAt = 1000\<rparr>"
    by (simp add: pairedStore_value)
  have w1: "map_of (sessions waitingStore) ''S'' = Some (snd (hd (sessions waitingStore)))"
    by (simp add: waitingStore_value)
  have w2: "map_of (clients (snd (hd (sessions waitingStore)))) ''A''
       = Some \<lparr>clientId = ''A'', displayName = ''Alice'', socket = 7, joinedAt = 1\<rparr>"
    by (simp add: waitingStore_value)
  note stay = removeClient_member [OF h1 h2]
  note gone = removeClient_member [OF w1 w2]
  have a: "removeClient ''S'' ''B'' pairedStore = waitingStore"
    using stay by (simp add: pairedStore_value waitingStore_value)
  have e: "AList.delete ''A'' (clients (snd (hd (sessions waitingStore)))) = []"
    by (simp add: waitingStore_value)
  have "removeClient ''S'' ''A'' waitingStore
          = waitingStore\<lparr>sessions := AList.delete ''S'' (sessions waitingStore)\<rparr>"
    using gone e by blast
  then have b: "removeClient ''S'' ''A'' waitingStore = \<lparr>sessions = [], totalSessionsCreated = 1, closed = []\<rparr>"
    by (simp add: waitingStore_value)
  have "closed (deleteSession ''S'' pairedStore)
          = closed pairedStore @ socketsOf (snd (hd (sessions pairedStore)))"
    using stay h1 by blast
  then have c: "closed (deleteSession ''S'' pairedStore) = [7, 8]"
    by (simp add: pairedStore_value socketsOf_def)
  show ?thesis using h1 h2 a b c by blast
qed

subsection \<open>The expiry sweep\<close>

text \<open>
  Claim C6, amended. One run of the sweep at time \<open>now\<close> deletes exactly the sessions with
  \<open>expires_at < now\<close>, closes the sockets of their members in map order, counts them, and
  leaves every session with \<open>now \<le> expires_at\<close> in place and in order. A session whose
  \<open>expires_at\<close> equals \<open>now\<close> is kept. The hypothesis is that of a \<^verbatim>\<open>Map\<close>: no session
  identifier occurs twice.
\<close>

theorem sweep_strict:
  assumes "distinct (map fst (sessions st))"
  shows "sessions (snd (cleanupExpiredSessions now st)) =
           filter (\<lambda>(sid, session). now \<le> expiresAt session) (sessions st)
       \<and> closed (snd (cleanupExpiredSessions now st)) =
           closed st @ concat (map (\<lambda>(sid, session). socketsOf session)
                                (filter (\<lambda>(sid, session). expiresAt session < now) (sessions st)))
       \<and> fst (cleanupExpiredSessions now st) =
           length (filter (\<lambda>(sid, session). expiresAt session < now) (sessions st))"
proof -
  have ex: "expiredAt now = (\<lambda>(sid, session). expiresAt session < now)"
    by (auto simp: expiredAt_def fun_eq_iff)
  have pre: "\<forall>e \<in> set (sessions st). map_of (sessions st) (fst e) = Some (snd e)"
    using assms by simp
  note L = sweepLoop_sessions [OF assms pre, of now 0]
  have keep: "filter (\<lambda>e. fst e \<notin> fst ` set (filter (expiredAt now) (sessions st))) (sessions st)
            = filter (\<lambda>(sid, session). now \<le> expiresAt session) (sessions st)"
  proof (rule filter_cong [OF refl])
    fix e assume m: "e \<in> set (sessions st)"
    have "fst e \<in> fst ` set (filter (expiredAt now) (sessions st)) \<longleftrightarrow> expiredAt now e"
    proof
      assume "fst e \<in> fst ` set (filter (expiredAt now) (sessions st))"
      then obtain e' where e': "e' \<in> set (sessions st)" "expiredAt now e'" "fst e' = fst e" by auto
      then have "e' = e" using assms m
        by (metis eq_key_imp_eq_value prod.collapse)
      then show "expiredAt now e" using e' by simp
    next
      assume "expiredAt now e"
      then show "fst e \<in> fst ` set (filter (expiredAt now) (sessions st))" using m by auto
    qed
    then show "(fst e \<notin> fst ` set (filter (expiredAt now) (sessions st)))
             = (case e of (sid, session) \<Rightarrow> now \<le> expiresAt session)"
      by (auto simp: expiredAt_def split: prod.splits)
  qed
  have cl: "map (\<lambda>e. socketsOf (snd e)) = map (\<lambda>(sid, session). socketsOf session)"
    by (auto simp: fun_eq_iff split: prod.splits)
  show ?thesis using L keep
    by (simp add: cleanupExpiredSessions_def ex [symmetric] cl)
qed

text \<open>
  Scenario S5: the paired session expires at 3600000; a sweep one millisecond later removes
  it and closes both sockets.
\<close>

theorem sweep_strict_witness:
  "distinct (map fst (sessions pairedStore))
   \<and> sessions (snd (cleanupExpiredSessions 3600001 pairedStore)) = []
   \<and> closed (snd (cleanupExpiredSessions 3600001 pairedStore)) = [7, 8]
   \<and> fst (cleanupExpiredSessions 3600001 pairedStore) = 1"
proof -
  have h: "distinct (map fst (sessions pairedStore))" by (simp add: pairedStore_value)
  show ?thesis using h sweep_strict [OF h, of 3600001]
    by (simp add: pairedStore_value socketsOf_def)
qed

text \<open>
  At the boundary the sweep differs from the specification's wording: swept at time
  3600000, the session expiring at 3600000 would be deleted by \<open>expires_at \<le> now\<close>, but the
  sweep keeps it and closes no socket.
\<close>

theorem sweep_boundary_counterexample:
  "spec_sweep_sessions 3600000 (sessions pairedStore) = []
   \<and> sessions (snd (cleanupExpiredSessions 3600000 pairedStore)) = sessions pairedStore
   \<and> sessions pairedStore \<noteq> []
   \<and> closed (snd (cleanupExpiredSessions 3600000 pairedStore)) = []"
  by (simp add: spec_sweep_sessions_def cleanupExpiredSessions_def pairedStore_value)

subsection \<open>Session time to live\<close>

text \<open>
  Claim C8. Every session returned by \<open>createSession\<close> has
  \<open>expiresAt = createdAt + 3600000\<close> (one hour in milliseconds), \<open>createdAt\<close> is the
  clock reading taken at creation, and the returned record is the one stored.
\<close>

theorem createSession_ttl:
  "expiresAt (fst (createSession sid tok now st)) = createdAt (fst (createSession sid tok now st)) + 3600000
   \<and> createdAt (fst (createSession sid tok now st)) = now
   \<and> map_of (sessions (snd (createSession sid tok now st))) sid = Some (fst (createSession sid tok now st))"
  by (simp add: createSession_def Let_def update_conv')

subsection \<open>Lazy expiry on read\<close>

text \<open>
  Claim C9. For a session in the registry whose expiry lies strictly in the past, each
  operation that looks the session up through \<open>getSession\<close> returns nothing (\<open>None\<close>,
  \<open>false\<close>, or the empty list) and leaves the store as \<open>deleteSession\<close> leaves it: the session
  is no longer in the registry and the socket of each of its members has been closed.
\<close>

theorem lazy_expiry:
  assumes "map_of (sessions st) sid = Some s" and "expiresAt s < now"
  shows "getSession now sid st = (None, deleteSession sid st)
       \<and> validateToken now sid tok st = (False, deleteSession sid st)
       \<and> addClient now joined sid cid dn sock st = (False, deleteSession sid st)
       \<and> getClient now sid cid st = (None, deleteSession sid st)
       \<and> getOtherClient now sid cid st = (None, deleteSession sid st)
       \<and> getClients now sid st = ([], deleteSession sid st)
       \<and> map_of (sessions (deleteSession sid st)) sid = None
       \<and> closed (deleteSession sid st) = closed st @ socketsOf s"
proof -
  have g: "getSession now sid st = (None, deleteSession sid st)"
    using assms by (simp add: getSession_def)
  have m: "map_of (sessions (deleteSession sid st)) sid = None"
    by (simp add: sessions_deleteSession delete_conv')
  have c: "closed (deleteSession sid st) = closed st @ socketsOf s"
    using assms(1) by (simp add: closed_deleteSession)
  show ?thesis using g m c
    by (simp add: validateToken_def addClient_def getClient_def getOtherClient_def getClients_def)
qed

text \<open>
  The paired session read at time 3600001, one millisecond after its expiry.
\<close>

theorem lazy_expiry_witness:
  "map_of (sessions pairedStore) ''S'' = Some (snd (hd (sessions pairedStore)))
   \<and> expiresAt (snd (hd (sessions pairedStore))) < 3600001
   \<and> getSession 3600001 ''S'' pairedStore = (None, \<lparr>sessions = [], totalSessionsCreated = 1, closed = [7, 8]\<rparr>)
   \<and> validateToken 3600001 ''S'' ''K'' pairedStore = (False, \<lparr>sessions = [], totalSessionsCreated = 1, closed = [7, 8]\<rparr>)
   \<and> fst (addClient 3600001 3600001 ''S'' ''C'' ''Carol'' 9 pairedStore) = False
   \<and> fst (getClient 3600001 ''S'' ''C'' pairedStore) = None
   \<and> fst (getOtherClient 3600001 ''S'' ''C'' pairedStore) = None
   \<and> fst (getClients 3600001 ''S'' pairedStore) = []"
proof -
  have h1: "map_of (sessions pairedStore) ''S'' = Some (snd (hd (sessions pairedStore)))"
    by (simp add: pairedStore_value)
  have h2: "expiresAt (snd (hd (sessions pairedStore))) < 3600001"
    by (simp add: pairedStore_value)
  have d: "deleteSession ''S'' pairedStore = \<lparr>sessions = [], totalSessionsCreated = 1, closed = [7, 8]\<rparr>"
    by (simp add: deleteSession_def pairedStore_value)
  show ?thesis
    using h1 h2 lazy_expiry [OF h1 h2, of "''K''" 3600001 "''C''" "''Carol''" 9] d
    by simp
qed

subsection \<open>The statistics resource\<close>

text \<open>
  Claim C10, amended. The statistics response consists of the number of sessions in the
  registry, the number of member connections over all of them, and the cumulative number
  of sessions created since start (in the longer entry point also the process uptime and a
  timestamp). After any history of calls from the empty store the created total is the
  number of \<open>createSession\<close> calls. There is no total of expired sessions.
\<close>

theorem stats_fields:
  "statsHandler uptime timestamp st =
     [(''activeSessions'', Counter (length (sessions st))),
      (''activeConnections'',
         Counter (sum_list (map (\<lambda>(sid, session). length (clients session)) (sessions st)))),
      (''totalSessionsCreated'', Counter (totalSessionsCreated st)),
      (''uptime'', Rendered uptime),
      (''timestamp'', Rendered timestamp)]
   \<and> statsHandlerShort st =
     [(''activeSessions'', Counter (length (sessions st))),
      (''activeConnections'',
         Counter (sum_list (map (\<lambda>(sid, session). length (clients session)) (sessions st)))),
      (''totalSessionsCreated'', Counter (totalSessionsCreated st))]
   \<and> totalSessionsCreated (run cs emptyStore) = length (filter isCreate cs)"
  by (simp add: statsHandler_def statsHandlerShort_def getActiveSessionCount_def
        getActiveConnectionCount_def getTotalSessionsCreated_def countLoop_sum run_total
        emptyStore_def)

text \<open>
  Two histories, one in which the sweep expires a session and one in which the session is
  removed before the sweep and nothing expires, end with the same statistics response: the
  number of expired sessions cannot be read off it.
\<close>

theorem stats_expired_counterexample:
  "fst (cleanupExpiredSessions 3600001 (run [CreateSession ''S'' ''K'' 0] emptyStore)) = 1
   \<and> fst (cleanupExpiredSessions 3600001
            (run [CreateSession ''S'' ''K'' 0, RemoveClient ''S'' ''A''] emptyStore)) = 0
   \<and> statsHandler ''3600.5'' ''T''
        (snd (cleanupExpiredSessions 3600001 (run [CreateSession ''S'' ''K'' 0] emptyStore)))
      = [(''activeSessions'', Counter 0), (''activeConnections'', Counter 0),
         (''totalSessionsCreated'', Counter 1), (''uptime'', Rendered ''3600.5''),
         (''timestamp'', Rendered ''T'')]
   \<and> statsHandler ''3600.5'' ''T''
        (snd (cleanupExpiredSessions 3600001
               (run [CreateSession ''S'' ''K'' 0, RemoveClient ''S'' ''A''] emptyStore)))
      = [(''activeSessions'', Counter 0), (''activeConnections'', Counter 0),
         (''totalSessionsCreated'', Counter 1), (''uptime'', Rendered ''3600.5''),
         (''timestamp'', Rendered ''T'')]
   \<and> statsHandlerShort
        (snd (cleanupExpiredSessions 3600001 (run [CreateSession ''S'' ''K'' 0] emptyStore)))
      = statsHandlerShort
        (snd (cleanupExpiredSessions 3600001
               (run [CreateSession ''S'' ''K'' 0, RemoveClient ''S'' ''A''] emptyStore)))"
  by (simp add: cleanupExpiredSessions_def createSession_def removeClient_def deleteSession_def
        emptyStore_def Let_def statsHandler_def statsHandlerShort_def getActiveSessionCount_def
        getActiveConnectionCount_def getTotalSessionsCreated_def)

end
